theory Spec2Isabelle
  imports Main
begin

section \<open>The router of \<open>src/router.js\<close>\<close>

text \<open>
  The class \<open>Router\<close> keeps a private registry \<open>#routes\<close>: a JavaScript \<open>Map\<close> from the
  method name to a \<open>Map\<close> from path pattern to handler. Registration (\<open>#add\<close>, reached
  through \<open>get\<close>, \<open>post\<close> and \<open>static\<close>) writes into it; \<open>route\<close> reads it.

  The embedding is shallow. A \<open>Map\<close> is an association list in insertion order, a throw is
  the left injection of a sum, the mutation of \<open>#routes\<close> is explicit state passing, the
  \<open>for ... of\<close> loop of \<open>route\<close> is a recursion over the table, and what \<open>console.error\<close>
  receives is returned as a list. The two things the class takes from its platform, the
  \<open>URLPattern\<close> constructor and \<open>Deno.open\<close>, are parameters of the model (the record
  \<open>platform\<close>): the general theorems hold for every platform.
\<close>

subsection \<open>JavaScript values, errors and \<open>Map\<close>\<close>

text \<open>
  The values a caller can pass where the source expects the path pattern. Numbers are kept
  as integers and objects and functions are opaque: \<open>#add\<close> only asks for their \<open>typeof\<close>.
\<close>

datatype js_value =
    JUndefined
  | JNull
  | JBoolean bool
  | JNumber int
  | JString string
  | JObject
  | JFunction

fun typeof :: "js_value \<Rightarrow> string" where
  "typeof JUndefined = ''undefined''"
| "typeof JNull = ''object''"
| "typeof (JBoolean b) = ''boolean''"
| "typeof (JNumber n) = ''number''"
| "typeof (JString s) = ''string''"
| "typeof JObject = ''object''"
| "typeof JFunction = ''function''"

text \<open>
  What is thrown: the error's class (\<open>NotFound\<close> is \<open>Deno.errors.NotFound\<close>) with its
  message.
\<close>

datatype js_error = Error string | TypeError string | NotFound string

text \<open>
  A \<open>Map\<close> iterates in insertion order, and \<open>set\<close> on a key that is present replaces the
  value where the key stands; on a new key it appends.
\<close>

type_synonym ('k, 'v) js_map = "('k \<times> 'v) list"

fun map_has :: "('k, 'v) js_map \<Rightarrow> 'k \<Rightarrow> bool" where
  "map_has [] k = False"
| "map_has ((k', v') # m) k = (if k' = k then True else map_has m k)"

fun map_get :: "('k, 'v) js_map \<Rightarrow> 'k \<Rightarrow> 'v option" where
  "map_get [] k = None"
| "map_get ((k', v') # m) k = (if k' = k then Some v' else map_get m k)"

fun map_set :: "('k, 'v) js_map \<Rightarrow> 'k \<Rightarrow> 'v \<Rightarrow> ('k, 'v) js_map" where
  "map_set [] k v = [(k, v)]"
| "map_set ((k', v') # m) k v = (if k' = k then (k', v) # m else (k', v') # map_set m k v)"

subsection \<open>Requests, responses and the platform\<close>

record request =
  req_method :: string
  req_url :: string

text \<open>
  A response body is \<open>null\<close>, a string, or the readable stream of an opened file. The
  stream is consumed after the handler has returned; its outcome (the bytes, or the error
  of a failing read) is what the stream carries here.
\<close>

datatype body = Null | Text string | Stream "js_error + string"

text \<open>
  \<open>headers\<close> are the headers the code sets itself; those the platform derives from the
  body are not modelled.
\<close>

record response =
  status :: nat
  headers :: "(string \<times> string) list"
  body :: body

text \<open>\<open>new Response(body, { status, headers })\<close>; the source's statuses are 200 to 599.\<close>

definition Response :: "body \<Rightarrow> nat \<Rightarrow> (string \<times> string) list \<Rightarrow> response" where
  "Response b s hs = \<lparr>status = s, headers = hs, body = b\<rparr>"

text \<open>
  The groups of a pattern match, from capture name to matched text. A capture that took
  no part in the match (its value is \<open>undefined\<close>) is absent from the list.
\<close>

type_synonym groups = "(string, string) js_map"

text \<open>
  A constructed \<open>URLPattern\<close>: \<open>test\<close> says whether a URL matches, \<open>exec\<close> gives
  \<open>pathname.groups\<close> of the match result, or \<open>None\<close> where \<open>exec\<close> returns \<open>null\<close>.
\<close>

record urlpattern =
  test :: "string \<Rightarrow> bool"
  exec :: "string \<Rightarrow> groups option"

text \<open>
  The platform: \<open>new URLPattern({ pathname })\<close>, which throws on a pattern it cannot
  parse, and \<open>Deno.open(path, { read: true })\<close>, which rejects or yields the file's
  readable stream.
\<close>

record platform =
  URLPattern :: "string \<Rightarrow> js_error + urlpattern"
  Deno_open :: "string \<Rightarrow> js_error + (js_error + string)"

text \<open>
  The argument of a handler, \<open>{ req, params }\<close>; \<open>params\<close> is \<open>None\<close> for \<open>undefined\<close>.
\<close>

record ctx =
  req :: request
  params :: "groups option"

text \<open>
  A registered handler is any value. Calling one that is a function returns a response or
  throws (a rejected promise is a throw at the \<open>await\<close>); calling anything else is a
  \<open>TypeError\<close>. Handlers do not register routes while a dispatch runs.
\<close>

datatype handler =
    Callable "platform \<Rightarrow> ctx \<Rightarrow> js_error + response"
  | NotCallable

fun call :: "handler \<Rightarrow> platform \<Rightarrow> ctx \<Rightarrow> js_error + response" where
  "call (Callable f) P c = f P c"
| "call NotCallable P c = Inl (TypeError ''handler is not a function'')"

subsection \<open>The registry and registration\<close>

type_synonym table = "(string, handler) js_map"
type_synonym routes = "(string, table) js_map"

text \<open>The field initialiser of \<open>#routes\<close>.\<close>

definition Router_new :: routes where
  "Router_new = [(''GET'', []), (''POST'', [])]"

text \<open>
  \<open>#add(method, pathname, handler)\<close>. The result is the completion (\<open>Inl\<close> the error
  thrown) and the registry afterwards. \<open>this.#routes.get(method)?.set(pathname, handler)\<close>
  mutates the inner \<open>Map\<close> in place, so the outer entry keeps its position.
\<close>

definition add :: "routes \<Rightarrow> string \<Rightarrow> js_value \<Rightarrow> handler \<Rightarrow> (js_error + unit) \<times> routes" where
  "add routes method pathname handler =
     (if typeof pathname \<noteq> ''string'' \<or> pathname = JString '''' then
        (Inl (Error ''Invalid pathname''), routes)
      else
        (case pathname of
           JString s \<Rightarrow>
             (case map_get routes method of
                None \<Rightarrow> (Inr (), routes)
              | Some tbl \<Rightarrow> (Inr (), map_set routes method (map_set tbl s handler)))
         | _ \<Rightarrow> (Inl (Error ''Invalid pathname''), routes)))"

definition get :: "routes \<Rightarrow> js_value \<Rightarrow> handler \<Rightarrow> (js_error + unit) \<times> routes" where
  "get routes pathname handler = add routes ''GET'' pathname handler"

definition post :: "routes \<Rightarrow> js_value \<Rightarrow> handler \<Rightarrow> (js_error + unit) \<times> routes" where
  "post routes pathname handler = add routes ''POST'' pathname handler"

subsection \<open>The static-directory handler\<close>

text \<open>
  Reading the property \<open>path\<close> of \<open>params\<close> throws when \<open>params\<close> is \<open>undefined\<close>; a
  missing property reads as \<open>undefined\<close>, which string concatenation and the regular
  expression both turn into the text \<open>undefined\<close>.
\<close>

definition params_path :: "groups option \<Rightarrow> js_error + string" where
  "params_path ps =
     (case ps of
        None \<Rightarrow> Inl (TypeError ''Cannot read properties of undefined'')
      | Some g \<Rightarrow> (case map_get g ''path'' of None \<Rightarrow> Inr ''undefined'' | Some s \<Rightarrow> Inr s))"

text \<open>The regular expression \<open>/\.js$/s\<close>: the text ends in \<open>.js\<close>.\<close>

definition ends_with_js :: "string \<Rightarrow> bool" where
  "ends_with_js s = (length s \<ge> 3 \<and> drop (length s - 3) s = ''.js'')"

text \<open>The body of the \<open>try\<close> block of the handler that \<open>static\<close> registers.\<close>

definition static_try :: "string \<Rightarrow> platform \<Rightarrow> ctx \<Rightarrow> js_error + response" where
  "static_try foldername P c =
     (case params_path (params c) of
        Inl e \<Rightarrow> Inl e
      | Inr path \<Rightarrow>
          (case Deno_open P (''./'' @ foldername @ ''/'' @ path) of
             Inl e \<Rightarrow> Inl e
           | Inr readableStream \<Rightarrow>
               Inr (Response (Stream readableStream) 200
                      (if ends_with_js path then [(''content-type'', ''text/javascript'')] else []))))"

text \<open>The handler: the \<open>try\<close> block, and the \<open>catch\<close> that answers 404 for whatever it threw.\<close>

definition static_handler :: "string \<Rightarrow> platform \<Rightarrow> ctx \<Rightarrow> js_error + response" where
  "static_handler foldername P c =
     (case static_try foldername P c of
        Inl e \<Rightarrow> Inr (Response (Text ''Not Found'') 404 [])
      | Inr r \<Rightarrow> Inr r)"

text \<open>A default parameter: an argument that is omitted (\<open>None\<close>) takes the default.\<close>

definition default_to :: "'a \<Rightarrow> 'a option \<Rightarrow> 'a" where
  "default_to d arg = (case arg of None \<Rightarrow> d | Some v \<Rightarrow> v)"

text \<open>\<open>static(pathname = "/static", foldername = "static")\<close>, on string arguments.\<close>

definition static :: "routes \<Rightarrow> string option \<Rightarrow> string option \<Rightarrow> (js_error + unit) \<times> routes" where
  "static routes pathname foldername =
     add routes ''GET'' (JString (default_to ''/static'' pathname @ ''/:path*''))
       (Callable (static_handler (default_to ''static'' foldername)))"

subsection \<open>Dispatch\<close>

text \<open>
  How the loop of \<open>route\<close> ends: by the \<open>return\<close> inside it, by an error that nothing
  catches, or by running off the table with the status it has reached.
\<close>

datatype loop_exit = Return response | Throw js_error | Completed nat

text \<open>
  The loop over the entries of the method's table, with the variable \<open>status\<close> (\<open>st\<close>) and the
  errors written to \<open>console.error\<close> so far. The \<open>URLPattern\<close> is constructed outside the
  \<open>try\<close> block; only the call of the handler is inside it.
\<close>

fun for_of :: "platform \<Rightarrow> request \<Rightarrow> table \<Rightarrow> nat \<Rightarrow> js_error list \<Rightarrow> js_error list \<times> loop_exit" where
  "for_of P r [] st log = (log, Completed st)"
| "for_of P r ((pathname, handler) # rest) st log =
     (case URLPattern P pathname of
        Inl e \<Rightarrow> (log, Throw e)
      | Inr url \<Rightarrow>
          if test url (req_url r) then
            (case call handler P \<lparr>req = r, params = exec url (req_url r)\<rparr> of
               Inr resp \<Rightarrow> (log, Return resp)
             | Inl error \<Rightarrow> for_of P r rest 500 (log @ [error]))
          else for_of P r rest 404 log)"

text \<open>
  \<open>route(req)\<close>: what was logged, and the response the promise resolves to (\<open>Inr\<close>) or the
  error it rejects with (\<open>Inl\<close>).
\<close>

definition route :: "platform \<Rightarrow> routes \<Rightarrow> request \<Rightarrow> js_error list \<times> (js_error + response)" where
  "route P routes r =
     (let st = 405 in
      if map_has routes (req_method r) then
        (case map_get routes (req_method r) of
           None \<Rightarrow> ([], Inl (TypeError ''undefined is not iterable''))
         | Some tbl \<Rightarrow>
             (case for_of P r tbl st [] of
                (log, Return resp) \<Rightarrow> (log, Inr resp)
              | (log, Throw e) \<Rightarrow> (log, Inl e)
              | (log, Completed st') \<Rightarrow> (log, Inr (Response Null st' []))))
      else ([], Inr (Response Null st [])))"

subsection \<open>Vocabulary of the statements\<close>

text \<open>
  The entries registered for a method, in iteration order: none when the method is not a
  key of the registry.
\<close>

definition registered :: "routes \<Rightarrow> string \<Rightarrow> table" where
  "registered routes m = (case map_get routes m of None \<Rightarrow> [] | Some tbl \<Rightarrow> tbl)"

text \<open>The pattern is one the \<open>URLPattern\<close> constructor accepts.\<close>

definition accepted :: "platform \<Rightarrow> string \<Rightarrow> bool" where
  "accepted P pathname = (case URLPattern P pathname of Inl e \<Rightarrow> False | Inr url \<Rightarrow> True)"

text \<open>The pattern structurally matches the request's URL.\<close>

definition matches :: "platform \<Rightarrow> request \<Rightarrow> string \<Rightarrow> bool" where
  "matches P r pathname =
     (case URLPattern P pathname of Inl e \<Rightarrow> False | Inr url \<Rightarrow> test url (req_url r))"

text \<open>
  What the handler of an entry answers when \<open>route\<close> calls it for the request: it is
  given the request and the groups that \<open>exec\<close> extracts.
\<close>

definition invoke :: "platform \<Rightarrow> request \<Rightarrow> string \<times> handler \<Rightarrow> js_error + response" where
  "invoke P r entry =
     (case URLPattern P (fst entry) of
        Inl e \<Rightarrow> Inl e
      | Inr url \<Rightarrow> call (snd entry) P \<lparr>req = r, params = exec url (req_url r)\<rparr>)"

text \<open>
  The loop passes over the entry and goes on to the next: the pattern is accepted, and it
  does not match or its handler throws.
\<close>

definition passed_over :: "platform \<Rightarrow> request \<Rightarrow> string \<times> handler \<Rightarrow> bool" where
  "passed_over P r entry =
     (accepted P (fst entry) \<and> (matches P r (fst entry) \<longrightarrow> isl (invoke P r entry)))"

text \<open>The pattern is a string that is not empty: what \<open>#add\<close> lets through.\<close>

definition nonempty_string :: "js_value \<Rightarrow> bool" where
  "nonempty_string v = (case v of JString s \<Rightarrow> s \<noteq> [] | _ \<Rightarrow> False)"

text \<open>
  The registry of a router has the two keys of its initialiser, whatever was registered:
  \<open>#add\<close> never adds a key to the outer \<open>Map\<close>.
\<close>

definition fixed_methods :: "routes \<Rightarrow> bool" where
  "fixed_methods routes = (map fst routes = [''GET'', ''POST''])"

subsection \<open>A platform for closed instances\<close>

text \<open>
  The theorems about \<open>route\<close> hold for every platform; their closed instances need one.

  Modelled from the spec: the URL-pattern collaborator of its sections 3 and 6, which is the
  platform's and not in the repository, on the patterns the spec's data model names. A
  pattern is a sequence of segments, each after a slash: literal text, a named capture
  \<open>:name\<close> that binds one segment that is not empty, and as the last segment a capture
  \<open>:name*\<close> that binds the rest of the path, or nothing when the path ends before it.
  The URL is \<open>http://\<close> or \<open>https://\<close>, a host, and a path of plain segments, up to a
  query or fragment.

  Whatever is outside that fragment is rejected (a pattern) or matches nothing (a URL). For
  a pattern with an unterminated group, such as \<open>(\<close>, that is what the URL Pattern standard
  says of the constructor (it throws a \<open>TypeError\<close>); for the rest of the standard's syntax
  (groups, wildcards, modifiers, escapes) this platform is not Deno's, and no statement
  below rests on it there.
\<close>

definition name_char :: "char \<Rightarrow> bool" where
  "name_char c = (c \<in> set ''abcdefghijklmnopqrstuvwxyzABCDEFGHIJKLMNOPQRSTUVWXYZ0123456789_'')"

definition plain_char :: "char \<Rightarrow> bool" where
  "plain_char c = (name_char c \<or> c \<in> set ''-.~'')"

definition plain_segment :: "string \<Rightarrow> bool" where
  "plain_segment s = (list_all plain_char s \<and> s \<noteq> ''.'' \<and> s \<noteq> ''..'')"

definition is_name :: "string \<Rightarrow> bool" where
  "is_name n = (case n of [] \<Rightarrow> False | c # cs \<Rightarrow> name_char c \<and> c \<notin> set ''0123456789'' \<and> list_all name_char cs)"

fun split_slash :: "string \<Rightarrow> string list" where
  "split_slash [] = [[]]"
| "split_slash (c # cs) =
     (if c = CHR ''/'' then [] # split_slash cs
      else (case split_slash cs of [] \<Rightarrow> [[c]] | s # ss \<Rightarrow> (c # s) # ss))"

datatype part = Fixed string | Named string | NamedStar string

definition parse_part :: "string \<Rightarrow> part option" where
  "parse_part s =
     (case s of
        [] \<Rightarrow> Some (Fixed [])
      | c # n \<Rightarrow>
          if c = CHR '':'' then
            (if n \<noteq> [] \<and> last n = CHR ''*'' \<and> is_name (butlast n) then Some (NamedStar (butlast n))
             else if is_name n then Some (Named n)
             else None)
          else if plain_segment s then Some (Fixed s)
          else None)"

fun parse_parts :: "string list \<Rightarrow> part list option" where
  "parse_parts [] = Some []"
| "parse_parts (s # ss) =
     (case parse_part s of
        None \<Rightarrow> None
      | Some (NamedStar n) \<Rightarrow> if ss = [] then Some [NamedStar n] else None
      | Some p \<Rightarrow> (case parse_parts ss of None \<Rightarrow> None | Some ps \<Rightarrow> Some (p # ps)))"

fun part_names :: "part list \<Rightarrow> string list" where
  "part_names [] = []"
| "part_names (Fixed s # ps) = part_names ps"
| "part_names (Named n # ps) = n # part_names ps"
| "part_names (NamedStar n # ps) = n # part_names ps"

definition parse_pathname :: "string \<Rightarrow> part list option" where
  "parse_pathname p =
     (case split_slash p of
        [] # ss \<Rightarrow>
          (case parse_parts ss of
             None \<Rightarrow> None
           | Some ps \<Rightarrow> if ss \<noteq> [] \<and> distinct (part_names ps) then Some ps else None)
      | _ \<Rightarrow> None)"

fun join_slash :: "string list \<Rightarrow> string" where
  "join_slash [] = []"
| "join_slash [s] = s"
| "join_slash (s # t # ss) = s @ ''/'' @ join_slash (t # ss)"

fun match_parts :: "part list \<Rightarrow> string list \<Rightarrow> groups option" where
  "match_parts [] [] = Some []"
| "match_parts (NamedStar n # ps) ss =
     (if ss = [] then Some []
      else if list_all (\<lambda>s. s \<noteq> []) ss then Some [(n, join_slash ss)]
      else None)"
| "match_parts (Fixed l # ps) (s # ss) = (if l = s then match_parts ps ss else None)"
| "match_parts (Named n # ps) (s # ss) =
     (if s = [] then None
      else (case match_parts ps ss of None \<Rightarrow> None | Some g \<Rightarrow> Some ((n, s) # g)))"
| "match_parts ps ss = None"

definition path_of :: "string \<Rightarrow> string" where
  "path_of rest =
     (let p = takeWhile (\<lambda>c. c \<notin> set ''?#'') (dropWhile (\<lambda>c. c \<notin> set ''/?#'') rest)
      in if p = [] then ''/'' else p)"

definition url_segments :: "string \<Rightarrow> string list option" where
  "url_segments u =
     (let path = (if take 7 u = ''http://'' then Some (path_of (drop 7 u))
                  else if take 8 u = ''https://'' then Some (path_of (drop 8 u))
                  else None)
      in case path of
           None \<Rightarrow> None
         | Some p \<Rightarrow>
             (case split_slash p of
                [] # ss \<Rightarrow> if list_all plain_segment ss then Some ss else None
              | _ \<Rightarrow> None))"

definition match_url :: "part list \<Rightarrow> string \<Rightarrow> groups option" where
  "match_url ps u = (case url_segments u of None \<Rightarrow> None | Some ss \<Rightarrow> match_parts ps ss)"

definition URLPattern_segments :: "string \<Rightarrow> js_error + urlpattern" where
  "URLPattern_segments pathname =
     (case parse_pathname pathname of
        None \<Rightarrow> Inl (TypeError ''Invalid pattern'')
      | Some ps \<Rightarrow> Inr \<lparr>test = (\<lambda>u. match_url ps u \<noteq> None), exec = match_url ps\<rparr>)"

text \<open>
  A file system given by its entries: a path opens to what its stream yields, and a path
  that is missing is \<open>NotFound\<close>.
\<close>

definition open_in :: "(string, js_error + string) js_map \<Rightarrow> string \<Rightarrow> js_error + (js_error + string)" where
  "open_in files path =
     (case map_get files path of None \<Rightarrow> Inl (NotFound path) | Some f \<Rightarrow> Inr f)"

definition deno :: "(string, js_error + string) js_map \<Rightarrow> platform" where
  "deno files = \<lparr>URLPattern = URLPattern_segments, Deno_open = open_in files\<rparr>"

subsection \<open>The handlers and requests of the source's tests\<close>

text \<open>\<open>() => new Response(null)\<close>\<close>

definition handler_null :: handler where
  "handler_null = Callable (\<lambda>P c. Inr (Response Null 200 []))"

text \<open>\<open>() => { throw new Error("TEST"); }\<close>\<close>

definition handler_throws :: handler where
  "handler_throws = Callable (\<lambda>P c. Inl (Error ''TEST''))"

text \<open>\<open>({ params }) => new Response(`test, ${params.id}!`)\<close>\<close>

definition handler_id :: handler where
  "handler_id =
     Callable (\<lambda>P c.
       (case params c of
          None \<Rightarrow> Inl (TypeError ''Cannot read properties of undefined'')
        | Some g \<Rightarrow>
            Inr (Response
              (Text (''test, '' @ (case map_get g ''id'' of None \<Rightarrow> ''undefined'' | Some i \<Rightarrow> i) @ ''!''))
              200 [])))"

text \<open>
  The GET request whose \<open>url\<close> property reads \<open>u\<close>. It is what \<open>new Request(u)\<close> gives for
  a URL that is written in its serialised form, as the URLs of the tests are; the
  constructor's parsing of other texts, and its error on a text that is no URL, are not
  modelled.
\<close>

definition GET_request :: "string \<Rightarrow> request" where
  "GET_request u = \<lparr>req_method = ''GET'', req_url = u\<rparr>"

section \<open>Properties\<close>

subsection \<open>Facts about \<open>Map\<close>\<close>

lemma map_has_get: "map_has m k \<longleftrightarrow> map_get m k \<noteq> None"
  by (induction m) (auto split: if_splits)

lemma map_get_map_set_same: "map_get (map_set m k v) k = Some v"
  by (induction m) auto

lemma map_get_map_set_other: "k' \<noteq> k \<Longrightarrow> map_get (map_set m k v) k' = map_get m k'"
  by (induction m) auto

lemma map_set_keys: "map_has m k \<Longrightarrow> map fst (map_set m k v) = map fst m"
  by (induction m) (auto split: if_splits)

text \<open>A new key goes to the end of the iteration order.\<close>

lemma map_set_absent: "\<not> map_has m k \<Longrightarrow> map_set m k v = m @ [(k, v)]"
  by (induction m) (auto split: if_splits)

text \<open>A key that is present keeps its place: \<open>set\<close> is an update at its index.\<close>

lemma map_set_present:
  "map_has m k \<Longrightarrow>
   \<exists>i<length m. fst (m ! i) = k \<and> (\<forall>j<i. fst (m ! j) \<noteq> k) \<and> map_set m k v = m[i := (k, v)]"
proof (induction m)
  case Nil
  then show ?case by simp
next
  case (Cons e m)
  obtain k' v' where e: "e = (k', v')" by (cases e)
  show ?case
  proof (cases "k' = k")
    case True
    then have "fst ((e # m) ! 0) = k \<and> (\<forall>j<0. fst ((e # m) ! j) \<noteq> k)
        \<and> map_set (e # m) k v = (e # m)[0 := (k, v)]"
      using e by simp
    then show ?thesis by blast
  next
    case False
    then have "map_has m k" using Cons.prems e by simp
    then obtain i where i: "i < length m" "fst (m ! i) = k" "\<forall>j<i. fst (m ! j) \<noteq> k"
      "map_set m k v = m[i := (k, v)]"
      using Cons.IH by blast
    have "\<forall>j<Suc i. fst ((e # m) ! j) \<noteq> k"
    proof (intro allI impI)
      fix j assume "j < Suc i"
      then show "fst ((e # m) ! j) \<noteq> k"
        using i(3) False e by (cases j) auto
    qed
    then have "Suc i < length (e # m) \<and> fst ((e # m) ! Suc i) = k
        \<and> (\<forall>j<Suc i. fst ((e # m) ! j) \<noteq> k)
        \<and> map_set (e # m) k v = (e # m)[Suc i := (k, v)]"
      using i False e by simp
    then show ?thesis by blast
  qed
qed

subsection \<open>The registry keeps its two methods\<close>

lemma fixed_methods_shape:
  "fixed_methods routes \<longleftrightarrow> (\<exists>g p. routes = [(''GET'', g), (''POST'', p)])"
proof
  assume "fixed_methods routes"
  then have m: "map fst routes = [''GET'', ''POST'']" by (simp add: fixed_methods_def)
  then obtain x y where xy: "routes = [x, y]"
    by (cases routes; cases "tl routes"; auto)
  then show "\<exists>g p. routes = [(''GET'', g), (''POST'', p)]"
    using m by (cases x; cases y; simp)
next
  assume "\<exists>g p. routes = [(''GET'', g), (''POST'', p)]"
  then show "fixed_methods routes" by (auto simp: fixed_methods_def)
qed

lemma fixed_methods_Router_new: "fixed_methods Router_new"
  by (simp add: fixed_methods_def Router_new_def)

lemma fixed_methods_add: "fixed_methods routes \<Longrightarrow> fixed_methods (snd (add routes m v h))"
  by (cases v) (auto simp: add_def fixed_methods_shape split: option.splits if_splits)

lemma fixed_methods_get_post_static:
  "fixed_methods routes \<Longrightarrow>
   fixed_methods (snd (get routes v h)) \<and> fixed_methods (snd (post routes v h))
   \<and> fixed_methods (snd (static routes pathname foldername))"
  by (simp add: get_def post_def static_def fixed_methods_add)

lemma fixed_methods_absent:
  "fixed_methods routes \<Longrightarrow> map_get routes m = None \<longleftrightarrow> m \<noteq> ''GET'' \<and> m \<noteq> ''POST''"
  by (auto simp: fixed_methods_shape)

lemma add_string:
  "s \<noteq> [] \<Longrightarrow>
   add routes m (JString s) h =
     (case map_get routes m of
        None \<Rightarrow> (Inr (), routes)
      | Some tbl \<Rightarrow> (Inr (), map_set routes m (map_set tbl s h)))"
  by (simp add: add_def)

subsection \<open>The loop of \<open>route\<close>\<close>

text \<open>\<open>route\<close> is its loop over the entries registered for the method, started at 405.\<close>

lemma route_for_of:
  "route P routes r =
     (case for_of P r (registered routes (req_method r)) 405 [] of
        (log, Return resp) \<Rightarrow> (log, Inr resp)
      | (log, Throw e) \<Rightarrow> (log, Inl e)
      | (log, Completed st) \<Rightarrow> (log, Inr (Response Null st [])))"
  by (auto simp: route_def registered_def map_has_get split: option.splits)

text \<open>Entries that do not match leave the loop at 404, with nothing logged.\<close>

lemma for_of_no_match:
  "\<forall>e\<in>set pre. accepted P (fst e) \<and> \<not> matches P r (fst e) \<Longrightarrow>
   for_of P r (pre @ rest) st log = for_of P r rest (if pre = [] then st else 404) log"
proof (induction pre arbitrary: st)
  case Nil
  then show ?case by simp
next
  case (Cons e pre)
  obtain p h where e: "e = (p, h)" by (cases e)
  from Cons.prems e obtain url where url: "URLPattern P p = Inr url" "\<not> test url (req_url r)"
    by (auto simp: accepted_def matches_def split: sum.splits)
  have "for_of P r ((e # pre) @ rest) st log = for_of P r (pre @ rest) 404 log"
    using e url by simp
  also have "\<dots> = for_of P r rest 404 log"
    using Cons.IH [of 404] Cons.prems by simp
  finally show ?case by simp
qed

text \<open>Entries the loop passes over hand some status and log to the entries after them.\<close>

lemma for_of_passed_over:
  "\<forall>e\<in>set pre. passed_over P r e \<Longrightarrow>
   \<exists>st' log'. for_of P r (pre @ rest) st log = for_of P r rest st' log'"
proof (induction pre arbitrary: st log)
  case Nil
  then show ?case by auto
next
  case (Cons e pre)
  obtain p h where e: "e = (p, h)" by (cases e)
  from Cons.prems e obtain url where url: "URLPattern P p = Inr url"
    by (auto simp: passed_over_def accepted_def split: sum.splits)
  have rest: "\<forall>e\<in>set pre. passed_over P r e" using Cons.prems by simp
  show ?case
  proof (cases "test url (req_url r)")
    case True
    then have "isl (call h P \<lparr>req = r, params = exec url (req_url r)\<rparr>)"
      using Cons.prems e url by (simp add: passed_over_def matches_def invoke_def)
    then obtain err where "call h P \<lparr>req = r, params = exec url (req_url r)\<rparr> = Inl err"
      by (auto simp: isl_def)
    then have "for_of P r ((e # pre) @ rest) st log = for_of P r (pre @ rest) 500 (log @ [err])"
      using e url True by simp
    then show ?thesis using Cons.IH [OF rest, of 500 "log @ [err]"] by simp
  next
    case False
    then have "for_of P r ((e # pre) @ rest) st log = for_of P r (pre @ rest) 404 log"
      using e url by simp
    then show ?thesis using Cons.IH [OF rest, of 404 log] by simp
  qed
qed

text \<open>A matching entry whose handler answers ends the loop, whatever comes after it.\<close>

lemma for_of_return:
  "matches P r p \<Longrightarrow> invoke P r (p, h) = Inr resp \<Longrightarrow>
   for_of P r ((p, h) # later) st log = (log, Return resp)"
  by (auto simp: matches_def invoke_def split: sum.splits)

text \<open>A matching entry whose handler throws sets 500, logs the error and goes on.\<close>

lemma for_of_throws:
  "matches P r p \<Longrightarrow> invoke P r (p, h) = Inl err \<Longrightarrow>
   for_of P r ((p, h) # later) st log = for_of P r later 500 (log @ [err])"
  by (auto simp: matches_def invoke_def split: sum.splits)

text \<open>Only the constructor of a pattern makes the loop throw.\<close>

lemma for_of_accepted:
  "\<forall>e\<in>set tbl. accepted P (fst e) \<Longrightarrow> snd (for_of P r tbl st log) \<noteq> Throw err"
proof (induction tbl arbitrary: st log)
  case Nil
  then show ?case by simp
next
  case (Cons e tbl)
  obtain p h where e: "e = (p, h)" by (cases e)
  from Cons.prems e obtain url where url: "URLPattern P p = Inr url"
    by (auto simp: accepted_def split: sum.splits)
  show ?case
    using Cons.IH Cons.prems e url by (auto split: sum.splits)
qed

text \<open>
  When the last entry of the table matches and its handler throws, the answer is 500 with
  no body, and the error is the last one logged.
\<close>

lemma route_last_handler_throws:
  assumes "registered routes (req_method r) = pre @ [(p, h)]"
    and "\<forall>e\<in>set pre. passed_over P r e"
    and "matches P r p" and "invoke P r (p, h) = Inl err"
  shows "snd (route P routes r) = Inr (Response Null 500 []) \<and> last (fst (route P routes r)) = err"
proof -
  from for_of_passed_over [OF assms(2), of "[(p, h)]" 405 "[]"]
  obtain st' log' where "for_of P r (pre @ [(p, h)]) 405 [] = for_of P r [(p, h)] st' log'"
    by blast
  then have "for_of P r (registered routes (req_method r)) 405 [] = (log' @ [err], Completed 500)"
    using for_of_throws [OF assms(3,4), of "[]" st' log'] assms(1) by simp
  then show ?thesis by (simp add: route_for_of)
qed

text \<open>
  When a later entry follows and the later entries are tested and do not match, the 500 of
  a handler that threw is overwritten: the answer is 404.
\<close>

lemma route_handler_throws_then_no_match:
  assumes "registered routes (req_method r) = pre @ (p, h) # later"
    and "\<forall>e\<in>set pre. passed_over P r e"
    and "matches P r p" and "invoke P r (p, h) = Inl err"
    and "later \<noteq> []"
    and "\<forall>e\<in>set later. accepted P (fst e) \<and> \<not> matches P r (fst e)"
  shows "snd (route P routes r) = Inr (Response Null 404 [])"
proof -
  from for_of_passed_over [OF assms(2), of "(p, h) # later" 405 "[]"]
  obtain st' log' where
    "for_of P r (pre @ (p, h) # later) 405 [] = for_of P r ((p, h) # later) st' log'"
    by blast
  also have "\<dots> = for_of P r later 500 (log' @ [err])"
    by (rule for_of_throws [OF assms(3,4)])
  also have "\<dots> = (log' @ [err], Completed 404)"
    using for_of_no_match [OF assms(6), of "[]" 500 "log' @ [err]"] assms(5) by simp
  finally show ?thesis using assms(1) by (simp add: route_for_of)
qed

text \<open>
  When the loop reaches an entry whose pattern the constructor rejects, \<open>route\<close> rejects
  with the constructor's error.
\<close>

lemma route_rejected_pattern:
  assumes "registered routes (req_method r) = pre @ (p, h) # later"
    and "\<forall>e\<in>set pre. passed_over P r e"
    and "URLPattern P p = Inl err"
  shows "snd (route P routes r) = Inl err"
proof -
  from for_of_passed_over [OF assms(2), of "(p, h) # later" 405 "[]"]
  obtain st' log' where
    "for_of P r (pre @ (p, h) # later) 405 [] = for_of P r ((p, h) # later) st' log'"
    by blast
  also have "\<dots> = (log', Throw err)"
    using assms(3) by simp
  finally show ?thesis using assms(1) by (simp add: route_for_of)
qed

subsection \<open>The static handler\<close>

lemma static_handler_resolves: "\<exists>resp. static_handler foldername P c = Inr resp"
  by (simp add: static_handler_def split: sum.splits)

lemma static_handler_open_fails:
  "params_path (params c) = Inr path \<Longrightarrow>
   Deno_open P (''./'' @ foldername @ ''/'' @ path) = Inl e \<Longrightarrow>
   static_handler foldername P c = Inr (Response (Text ''Not Found'') 404 [])"
  by (simp add: static_handler_def static_try_def)

text \<open>Without \<open>params\<close> the handler answers 404 as well: the \<open>TypeError\<close> is caught.\<close>

lemma static_handler_no_params:
  "params c = None \<Longrightarrow> static_handler foldername P c = Inr (Response (Text ''Not Found'') 404 [])"
  by (simp add: static_handler_def static_try_def params_path_def)

text \<open>
  When the file opens, the answer is 200 with the file's stream, whatever reading it will
  yield, and the content type of a \<open>.js\<close> path.
\<close>

lemma static_handler_opens:
  "params_path (params c) = Inr path \<Longrightarrow>
   Deno_open P (''./'' @ foldername @ ''/'' @ path) = Inr stream \<Longrightarrow>
   static_handler foldername P c =
     Inr (Response (Stream stream) 200
            (if ends_with_js path then [(''content-type'', ''text/javascript'')] else []))"
  by (simp add: static_handler_def static_try_def)

subsection \<open>Dispatch resolves unless a pattern is rejected (C1)\<close>

text \<open>
  Claim C1, as amended. For every registry and request such that the \<open>URLPattern\<close>
  constructor accepts every pattern registered for the request's method, \<open>route\<close> resolves
  to a response: what a handler throws is caught and never reaches the caller.
\<close>

theorem route_resolves:
  assumes "\<forall>e\<in>set (registered routes (req_method r)). accepted P (fst e)"
  shows "\<exists>log resp. route P routes r = (log, Inr resp)"
proof -
  obtain log x where x: "for_of P r (registered routes (req_method r)) 405 [] = (log, x)"
    by (cases "for_of P r (registered routes (req_method r)) 405 []")
  have "x \<noteq> Throw err" for err
    using for_of_accepted [OF assms, of r 405 "[]" err] x by simp
  then show ?thesis
    using x by (cases x) (auto simp: route_for_of)
qed

text \<open>
  An instance of C1 as amended: the one route of the registry has the pattern \<open>/test\<close>,
  which is accepted, and a handler that throws; the request for it is answered.
\<close>

theorem route_resolves_witness:
  "registered [(''GET'', [(''/test'', handler_throws)]), (''POST'', [])] ''GET''
     = [(''/test'', handler_throws)]
   \<and> accepted (deno []) ''/test''
   \<and> (\<exists>log resp.
        route (deno []) [(''GET'', [(''/test'', handler_throws)]), (''POST'', [])]
          (GET_request ''http://localhost/test'') = (log, Inr resp))"
proof -
  have reg: "registered [(''GET'', [(''/test'', handler_throws)]), (''POST'', [])] ''GET''
      = [(''/test'', handler_throws)]"
    by (simp add: registered_def)
  have acc: "accepted (deno []) ''/test''"
    by code_simp
  have "\<exists>log resp.
      route (deno []) [(''GET'', [(''/test'', handler_throws)]), (''POST'', [])]
        (GET_request ''http://localhost/test'') = (log, Inr resp)"
    by (rule route_resolves) (simp add: GET_request_def reg acc)
  then show ?thesis using reg acc by simp
qed

text \<open>
  Claim C1 as stated fails. Registration accepts the pattern \<open>(\<close>, a string that is not
  empty; the constructor of \<open>URLPattern\<close>, which \<open>route\<close> calls outside its \<open>try\<close> block,
  throws on it, and \<open>route\<close> rejects with that \<open>TypeError\<close>. (Lemma
  \<open>route_rejected_pattern\<close> is the general fact, for every platform.)
\<close>

theorem route_rejects_unparsable_pattern:
  "get Router_new (JString ''('') handler_null
     = (Inr (), [(''GET'', [(''('', handler_null)]), (''POST'', [])])
   \<and> route (deno []) [(''GET'', [(''('', handler_null)]), (''POST'', [])]
        (GET_request ''http://localhost/test'')
     = ([], Inl (TypeError ''Invalid pattern''))"
proof -
  have "get Router_new (JString ''('') handler_null
      = (Inr (), [(''GET'', [(''('', handler_null)]), (''POST'', [])])"
    by (simp add: get_def add_def Router_new_def)
  moreover have "route (deno []) [(''GET'', [(''('', handler_null)]), (''POST'', [])]
      (GET_request ''http://localhost/test'') = ([], Inl (TypeError ''Invalid pattern''))"
    by code_simp
  ultimately show ?thesis by simp
qed

subsection \<open>The first match that answers ends the search, behind accepted patterns (C2)\<close>

text \<open>
  Claim C2, as amended. The patterns are tested in registration order. When the entries
  before an entry have patterns that the \<open>URLPattern\<close> constructor accepts and that do not
  match, the entry's pattern matches, and its handler, called
  with the request and the groups extracted from the URL, answers, then \<open>route\<close> resolves
  to that answer and logs nothing. The entries after it (\<open>later\<close>) are arbitrary: none of
  them is tested, at whatever position the match stands.
\<close>

theorem route_first_match:
  assumes "registered routes (req_method r) = pre @ (pathname, handler) # later"
    and "\<forall>e\<in>set pre. accepted P (fst e) \<and> \<not> matches P r (fst e)"
    and "matches P r pathname"
    and "invoke P r (pathname, handler) = Inr resp"
  shows "route P routes r = ([], Inr resp)"
  using for_of_no_match [OF assms(2), of "(pathname, handler) # later" 405 "[]"]
    for_of_return [OF assms(3,4)] assms(1)
  by (simp add: route_for_of)

text \<open>
  An instance of C2 as amended: the match is the second of three entries, and the third has a
  pattern the constructor would reject, had the loop reached it.
\<close>

theorem route_first_match_witness:
  "registered
     [(''GET'', [(''/other'', handler_null), (''/test/:id'', handler_id), (''('', handler_null)]),
      (''POST'', [])] ''GET''
     = [(''/other'', handler_null)] @ (''/test/:id'', handler_id) # [(''('', handler_null)]
   \<and> accepted (deno []) ''/other''
   \<and> \<not> matches (deno []) (GET_request ''http://localhost/test/123'') ''/other''
   \<and> matches (deno []) (GET_request ''http://localhost/test/123'') ''/test/:id''
   \<and> invoke (deno []) (GET_request ''http://localhost/test/123'') (''/test/:id'', handler_id)
       = Inr (Response (Text ''test, 123!'') 200 [])
   \<and> \<not> accepted (deno []) ''(''
   \<and> route (deno [])
       [(''GET'', [(''/other'', handler_null), (''/test/:id'', handler_id), (''('', handler_null)]),
        (''POST'', [])]
       (GET_request ''http://localhost/test/123'')
     = ([], Inr (Response (Text ''test, 123!'') 200 []))"
proof -
  let ?R = "[(''GET'', [(''/other'', handler_null), (''/test/:id'', handler_id), (''('', handler_null)]),
             (''POST'', [])]"
  let ?r = "GET_request ''http://localhost/test/123''"
  have reg: "registered ?R (req_method ?r)
      = [(''/other'', handler_null)] @ (''/test/:id'', handler_id) # [(''('', handler_null)]"
    by (simp add: registered_def GET_request_def)
  have a: "accepted (deno []) ''/other''" by code_simp
  have b: "\<not> matches (deno []) ?r ''/other''" by code_simp
  have c: "matches (deno []) ?r ''/test/:id''" by code_simp
  have d: "invoke (deno []) ?r (''/test/:id'', handler_id) = Inr (Response (Text ''test, 123!'') 200 [])"
    by code_simp
  have e: "\<not> accepted (deno []) ''(''" by code_simp
  have pre: "\<forall>e\<in>set [(''/other'', handler_null)]. accepted (deno []) (fst e) \<and> \<not> matches (deno []) ?r (fst e)"
    using a b by simp
  have "route (deno []) ?R ?r = ([], Inr (Response (Text ''test, 123!'') 200 []))"
    using route_first_match [OF reg pre c d] .
  then show ?thesis using reg a b c d e by (simp add: GET_request_def)
qed

text \<open>
  Claim C2 as stated fails. It speaks of every request whose method has registered
  patterns, and registration lets in a pattern that the constructor of \<open>URLPattern\<close>
  rejects. Here \<open>(\<close> is registered before \<open>/test\<close>: for the request for \<open>/test\<close> the first
  pattern that structurally matches is \<open>/test\<close>, and its handler answers, but the loop
  constructs the pattern \<open>(\<close> first and \<open>route\<close> rejects with the \<open>TypeError\<close>.
\<close>

theorem route_first_match_behind_rejected_pattern:
  "get Router_new (JString ''('') handler_throws
     = (Inr (), [(''GET'', [(''('', handler_throws)]), (''POST'', [])])
   \<and> get [(''GET'', [(''('', handler_throws)]), (''POST'', [])] (JString ''/test'') handler_null
     = (Inr (), [(''GET'', [(''('', handler_throws), (''/test'', handler_null)]), (''POST'', [])])
   \<and> \<not> matches (deno []) (GET_request ''http://localhost/test'') ''(''
   \<and> matches (deno []) (GET_request ''http://localhost/test'') ''/test''
   \<and> invoke (deno []) (GET_request ''http://localhost/test'') (''/test'', handler_null)
     = Inr (Response Null 200 [])
   \<and> route (deno [])
        [(''GET'', [(''('', handler_throws), (''/test'', handler_null)]), (''POST'', [])]
        (GET_request ''http://localhost/test'')
     = ([], Inl (TypeError ''Invalid pattern''))"
proof -
  have "get Router_new (JString ''('') handler_throws
      = (Inr (), [(''GET'', [(''('', handler_throws)]), (''POST'', [])])"
    by (simp add: get_def add_def Router_new_def)
  moreover have "get [(''GET'', [(''('', handler_throws)]), (''POST'', [])] (JString ''/test'') handler_null
      = (Inr (), [(''GET'', [(''('', handler_throws), (''/test'', handler_null)]), (''POST'', [])])"
    by (simp add: get_def add_def)
  moreover have "\<not> matches (deno []) (GET_request ''http://localhost/test'') ''(''"
    by code_simp
  moreover have "matches (deno []) (GET_request ''http://localhost/test'') ''/test''"
    by code_simp
  moreover have "invoke (deno []) (GET_request ''http://localhost/test'') (''/test'', handler_null)
      = Inr (Response Null 200 [])"
    by code_simp
  moreover have "route (deno [])
      [(''GET'', [(''('', handler_throws), (''/test'', handler_null)]), (''POST'', [])]
      (GET_request ''http://localhost/test'')
    = ([], Inl (TypeError ''Invalid pattern''))"
    by code_simp
  ultimately show ?thesis by simp
qed

subsection \<open>A later match answers after an earlier handler has thrown (C3)\<close>

text \<open>
  Claim C3. The table of the method holds two entries, one before the other, whose
  patterns both match the request; the handler of the earlier one throws and the handler
  of the later one answers. Every other entry before the later one is passed over by the
  loop. Then \<open>route\<close> resolves to the answer of the later handler, not to a 500.
\<close>

theorem route_later_success:
  assumes "registered routes (req_method r) = pre @ (p1, h1) # mid @ (p2, h2) # later"
    and "\<forall>e\<in>set pre \<union> set mid. passed_over P r e"
    and "matches P r p1" and "invoke P r (p1, h1) = Inl err"
    and "matches P r p2" and "invoke P r (p2, h2) = Inr resp"
  shows "snd (route P routes r) = Inr resp"
proof -
  have "accepted P p1"
    using assms(3) by (auto simp: matches_def accepted_def split: sum.splits)
  then have "passed_over P r (p1, h1)"
    using assms(4) by (simp add: passed_over_def)
  then have "\<forall>e\<in>set (pre @ (p1, h1) # mid). passed_over P r e"
    using assms(2) by auto
  from for_of_passed_over [OF this, of "(p2, h2) # later" 405 "[]"]
  obtain st' log' where
    "for_of P r ((pre @ (p1, h1) # mid) @ (p2, h2) # later) 405 []
       = for_of P r ((p2, h2) # later) st' log'"
    by blast
  then have "for_of P r (registered routes (req_method r)) 405 [] = (log', Return resp)"
    using for_of_return [OF assms(5,6)] assms(1) by simp
  then show ?thesis by (simp add: route_for_of)
qed

text \<open>
  An instance of C3 with two overlapping patterns: \<open>/test\<close>, whose handler throws, and
  after it \<open>/:id\<close>, whose handler answers; the request is for \<open>/test\<close>.
\<close>

theorem route_later_success_witness:
  "registered [(''GET'', [(''/test'', handler_throws), (''/:id'', handler_id)]), (''POST'', [])] ''GET''
     = [] @ (''/test'', handler_throws) # [] @ (''/:id'', handler_id) # []
   \<and> matches (deno []) (GET_request ''http://localhost/test'') ''/test''
   \<and> invoke (deno []) (GET_request ''http://localhost/test'') (''/test'', handler_throws)
       = Inl (Error ''TEST'')
   \<and> matches (deno []) (GET_request ''http://localhost/test'') ''/:id''
   \<and> invoke (deno []) (GET_request ''http://localhost/test'') (''/:id'', handler_id)
       = Inr (Response (Text ''test, test!'') 200 [])
   \<and> snd (route (deno [])
            [(''GET'', [(''/test'', handler_throws), (''/:id'', handler_id)]), (''POST'', [])]
            (GET_request ''http://localhost/test''))
     = Inr (Response (Text ''test, test!'') 200 [])"
proof -
  let ?R = "[(''GET'', [(''/test'', handler_throws), (''/:id'', handler_id)]), (''POST'', [])]"
  let ?r = "GET_request ''http://localhost/test''"
  have reg: "registered ?R (req_method ?r)
      = [] @ (''/test'', handler_throws) # [] @ (''/:id'', handler_id) # []"
    by (simp add: registered_def GET_request_def)
  have a: "matches (deno []) ?r ''/test''" by code_simp
  have b: "invoke (deno []) ?r (''/test'', handler_throws) = Inl (Error ''TEST'')" by code_simp
  have c: "matches (deno []) ?r ''/:id''" by code_simp
  have d: "invoke (deno []) ?r (''/:id'', handler_id) = Inr (Response (Text ''test, test!'') 200 [])"
    by code_simp
  have none: "\<forall>e\<in>set [] \<union> set []. passed_over (deno []) ?r e" by simp
  have "snd (route (deno []) ?R ?r) = Inr (Response (Text ''test, test!'') 200 [])"
    using route_later_success [OF reg none a b c d] .
  then show ?thesis using reg a b c d by (simp add: GET_request_def)
qed

subsection \<open>A handler's error is overwritten by a later pattern that does not match (C4)\<close>

text \<open>
  Claim C4 says that a request whose matching handler throws, and which no subsequent
  pattern matches, is answered with 500. The code sets \<open>status = 500\<close> in the \<open>catch\<close>
  and goes on with the loop, where the next pattern that does not match sets
  \<open>status = 404\<close>. With the throwing handler of the source's tests registered for
  \<open>/test\<close> and any handler registered after it for \<open>/other\<close>, the request for \<open>/test\<close>
  logs the error and is answered with 404. (Lemma \<open>route_handler_throws_then_no_match\<close>
  is the general fact; the 500 is the answer when the entry is the last of the table,
  lemma \<open>route_last_handler_throws\<close>.)
\<close>

theorem route_handler_error_overwritten:
  "get Router_new (JString ''/test'') handler_throws
     = (Inr (), [(''GET'', [(''/test'', handler_throws)]), (''POST'', [])])
   \<and> get [(''GET'', [(''/test'', handler_throws)]), (''POST'', [])] (JString ''/other'') handler_null
     = (Inr (), [(''GET'', [(''/test'', handler_throws), (''/other'', handler_null)]), (''POST'', [])])
   \<and> matches (deno []) (GET_request ''http://localhost/test'') ''/test''
   \<and> \<not> matches (deno []) (GET_request ''http://localhost/test'') ''/other''
   \<and> route (deno [])
        [(''GET'', [(''/test'', handler_throws), (''/other'', handler_null)]), (''POST'', [])]
        (GET_request ''http://localhost/test'')
     = ([Error ''TEST''], Inr (Response Null 404 []))"
proof -
  have "get Router_new (JString ''/test'') handler_throws
      = (Inr (), [(''GET'', [(''/test'', handler_throws)]), (''POST'', [])])"
    by (simp add: get_def add_def Router_new_def)
  moreover have "get [(''GET'', [(''/test'', handler_throws)]), (''POST'', [])] (JString ''/other'') handler_null
      = (Inr (), [(''GET'', [(''/test'', handler_throws), (''/other'', handler_null)]), (''POST'', [])])"
    by (simp add: get_def add_def)
  moreover have "matches (deno []) (GET_request ''http://localhost/test'') ''/test''"
    by code_simp
  moreover have "\<not> matches (deno []) (GET_request ''http://localhost/test'') ''/other''"
    by code_simp
  moreover have "route (deno [])
      [(''GET'', [(''/test'', handler_throws), (''/other'', handler_null)]), (''POST'', [])]
      (GET_request ''http://localhost/test'')
    = ([Error ''TEST''], Inr (Response Null 404 []))"
    by code_simp
  ultimately show ?thesis by simp
qed

subsection \<open>Registration throws exactly on a pattern that is not a string or is empty (C5)\<close>

text \<open>
  Claim C5. \<open>#add\<close> throws its error (\<open>Error("Invalid pathname")\<close>) exactly when the
  pattern is not a string that is not empty; on every other pattern it completes without
  an error; and when it throws, the registry is the one it was given.
\<close>

theorem add_throws_iff:
  "(fst (add routes m v h) = Inl (Error ''Invalid pathname'') \<longleftrightarrow> \<not> nonempty_string v) \<and>
   (fst (add routes m v h) = Inr () \<longleftrightarrow> nonempty_string v) \<and>
   (\<not> nonempty_string v \<longrightarrow> snd (add routes m v h) = routes)"
  by (cases v) (auto simp: add_def nonempty_string_def split: option.splits)

text \<open>
  Instances of C5: the empty string and a number are refused and leave the registry as it
  was; the pattern \<open>/\<close> is let through.
\<close>

theorem add_throws_iff_witness:
  "\<not> nonempty_string (JString '''')
   \<and> add Router_new ''GET'' (JString '''') handler_null = (Inl (Error ''Invalid pathname''), Router_new)
   \<and> \<not> nonempty_string (JNumber 5)
   \<and> add Router_new ''GET'' (JNumber 5) handler_null = (Inl (Error ''Invalid pathname''), Router_new)
   \<and> nonempty_string (JString ''/'')
   \<and> fst (add Router_new ''GET'' (JString ''/'') handler_null) = Inr ()"
proof -
  have a: "\<not> nonempty_string (JString '''')" and b: "\<not> nonempty_string (JNumber 5)"
    and c: "nonempty_string (JString ''/'')"
    by (simp_all add: nonempty_string_def)
  show ?thesis
    using add_throws_iff [of Router_new "''GET''" "JString ''''" handler_null]
      add_throws_iff [of Router_new "''GET''" "JNumber 5" handler_null]
      add_throws_iff [of Router_new "''GET''" "JString ''/''" handler_null]
      a b c
    by (simp add: prod_eq_iff)
qed

subsection \<open>No pattern of the method matches, all accepted: 404 (C6)\<close>

text \<open>
  Claim C6, as amended. When the request's method has at least one registered pattern, and
  each of its patterns is accepted by the \<open>URLPattern\<close> constructor and does not match the
  URL, \<open>route\<close> resolves to a response with status 404 and no body.
\<close>

theorem route_not_found:
  assumes "registered routes (req_method r) \<noteq> []"
    and "\<forall>e\<in>set (registered routes (req_method r)). accepted P (fst e) \<and> \<not> matches P r (fst e)"
  shows "route P routes r = ([], Inr (Response Null 404 []))"
  using for_of_no_match [OF assms(2), of "[]" 405 "[]"] assms(1)
  by (simp add: route_for_of)

text \<open>
  An instance of C6 as amended, from the source's tests: \<open>/test\<close> is registered and
  \<open>/bar\<close> is requested.
\<close>

theorem route_not_found_witness:
  "registered [(''GET'', [(''/test'', handler_null)]), (''POST'', [])] ''GET''
     = [(''/test'', handler_null)]
   \<and> accepted (deno []) ''/test''
   \<and> \<not> matches (deno []) (GET_request ''http://localhost/bar'') ''/test''
   \<and> route (deno []) [(''GET'', [(''/test'', handler_null)]), (''POST'', [])]
        (GET_request ''http://localhost/bar'')
     = ([], Inr (Response Null 404 []))"
proof -
  let ?R = "[(''GET'', [(''/test'', handler_null)]), (''POST'', [])]"
  let ?r = "GET_request ''http://localhost/bar''"
  have reg: "registered ?R (req_method ?r) = [(''/test'', handler_null)]"
    by (simp add: registered_def GET_request_def)
  have a: "accepted (deno []) ''/test''" by code_simp
  have b: "\<not> matches (deno []) ?r ''/test''" by code_simp
  have "route (deno []) ?R ?r = ([], Inr (Response Null 404 []))"
    by (rule route_not_found) (simp_all add: reg a b)
  then show ?thesis using reg a b by (simp add: GET_request_def)
qed

text \<open>
  Claim C6 as stated fails. It speaks of every request whose method has a registered
  pattern and whose URL matches none, and registration lets in a pattern that the
  constructor of \<open>URLPattern\<close> rejects. Here \<open>/test\<close> and after it \<open>(\<close> are registered: the
  request for \<open>/bar\<close> matches neither, but \<open>route\<close> rejects with the \<open>TypeError\<close> of the
  constructor where the claim has the 404.
\<close>

theorem route_no_match_with_rejected_pattern:
  "get Router_new (JString ''/test'') handler_null
     = (Inr (), [(''GET'', [(''/test'', handler_null)]), (''POST'', [])])
   \<and> get [(''GET'', [(''/test'', handler_null)]), (''POST'', [])] (JString ''('') handler_null
     = (Inr (), [(''GET'', [(''/test'', handler_null), (''('', handler_null)]), (''POST'', [])])
   \<and> \<not> matches (deno []) (GET_request ''http://localhost/bar'') ''/test''
   \<and> \<not> matches (deno []) (GET_request ''http://localhost/bar'') ''(''
   \<and> route (deno [])
        [(''GET'', [(''/test'', handler_null), (''('', handler_null)]), (''POST'', [])]
        (GET_request ''http://localhost/bar'')
     = ([], Inl (TypeError ''Invalid pattern''))"
proof -
  have "get Router_new (JString ''/test'') handler_null
      = (Inr (), [(''GET'', [(''/test'', handler_null)]), (''POST'', [])])"
    by (simp add: get_def add_def Router_new_def)
  moreover have "get [(''GET'', [(''/test'', handler_null)]), (''POST'', [])] (JString ''('') handler_null
      = (Inr (), [(''GET'', [(''/test'', handler_null), (''('', handler_null)]), (''POST'', [])])"
    by (simp add: get_def add_def)
  moreover have "\<not> matches (deno []) (GET_request ''http://localhost/bar'') ''/test''"
    by code_simp
  moreover have "\<not> matches (deno []) (GET_request ''http://localhost/bar'') ''(''"
    by code_simp
  moreover have "route (deno [])
      [(''GET'', [(''/test'', handler_null), (''('', handler_null)]), (''POST'', [])]
      (GET_request ''http://localhost/bar'')
    = ([], Inl (TypeError ''Invalid pattern''))"
    by code_simp
  ultimately show ?thesis by simp
qed

subsection \<open>No pattern registered for the method: 405 (C7)\<close>

text \<open>
  Claim C7. When the request's method is not a key of the registry, or is a key whose
  table is empty, \<open>route\<close> resolves to a response with status 405 and no body. In the
  registry of a router the methods that are not keys are those other than GET and POST
  (lemma \<open>fixed_methods_absent\<close>).
\<close>

theorem route_method_not_allowed:
  assumes "map_get routes (req_method r) = None \<or> map_get routes (req_method r) = Some []"
  shows "route P routes r = ([], Inr (Response Null 405 []))"
  using assms by (auto simp: route_for_of registered_def)

text \<open>
  Instances of C7 on a new router: the method \<open>TEST\<close> of the source's tests, which is no
  key, and GET, whose table is empty.
\<close>

theorem route_method_not_allowed_witness:
  "map_get Router_new ''TEST'' = None
   \<and> route (deno []) Router_new \<lparr>req_method = ''TEST'', req_url = ''http://localhost/test''\<rparr>
     = ([], Inr (Response Null 405 []))
   \<and> map_get Router_new ''GET'' = Some []
   \<and> route (deno []) Router_new (GET_request ''http://localhost/test'')
     = ([], Inr (Response Null 405 []))"
proof -
  have a: "map_get Router_new ''TEST'' = None" and b: "map_get Router_new ''GET'' = Some []"
    by (simp_all add: Router_new_def)
  show ?thesis
    using a b
      route_method_not_allowed [of Router_new "\<lparr>req_method = ''TEST'', req_url = ''http://localhost/test''\<rparr>" "deno []"]
      route_method_not_allowed [of Router_new "GET_request ''http://localhost/test''" "deno []"]
    by (simp add: GET_request_def)
qed

subsection \<open>The static directory (C8)\<close>

text \<open>
  Claim C8, as amended. \<open>static\<close> registers under GET, for the pattern
  \<open>${pathname}/:path*\<close>, a handler that never throws, and that answers with status 404
  and body \<open>Not Found\<close> whenever opening the resolved file fails. (A failure of reading
  the stream of a file that did open comes after the handler has returned.)
\<close>

theorem static_registers_and_catches:
  assumes "map_get routes ''GET'' = Some tbl"
  shows "fst (static routes pathname foldername) = Inr () \<and>
         map_get (registered (snd (static routes pathname foldername)) ''GET'')
             (default_to ''/static'' pathname @ ''/:path*'')
           = Some (Callable (static_handler (default_to ''static'' foldername))) \<and>
         (\<forall>P c. \<exists>resp. static_handler (default_to ''static'' foldername) P c = Inr resp) \<and>
         (\<forall>P c path e.
            params_path (params c) = Inr path \<longrightarrow>
            Deno_open P (''./'' @ default_to ''static'' foldername @ ''/'' @ path) = Inl e \<longrightarrow>
            static_handler (default_to ''static'' foldername) P c
              = Inr (Response (Text ''Not Found'') 404 []))"
proof -
  let ?p = "default_to ''/static'' pathname @ ''/:path*''"
  let ?h = "Callable (static_handler (default_to ''static'' foldername))"
  have s: "static routes pathname foldername = (Inr (), map_set routes ''GET'' (map_set tbl ?p ?h))"
    using assms by (simp add: static_def add_string)
  have "registered (map_set routes ''GET'' (map_set tbl ?p ?h)) ''GET'' = map_set tbl ?p ?h"
    by (simp add: registered_def map_get_map_set_same)
  then have "map_get (registered (snd (static routes pathname foldername)) ''GET'') ?p = Some ?h"
    using s by (simp add: map_get_map_set_same)
  then show ?thesis
    using s static_handler_resolves static_handler_open_fails by auto
qed

text \<open>
  An instance of C8 as amended: \<open>static()\<close> on a new router, a file system with no
  file, and the request for \<open>/static/missing.txt\<close>.
\<close>

theorem static_registers_and_catches_witness:
  "map_get Router_new ''GET'' = Some []
   \<and> fst (static Router_new None None) = Inr ()
   \<and> map_get (registered (snd (static Router_new None None)) ''GET'') ''/static/:path*''
       = Some (Callable (static_handler ''static''))
   \<and> params_path (Some [(''path'', ''missing.txt'')]) = Inr ''missing.txt''
   \<and> Deno_open (deno []) ''./static/missing.txt'' = Inl (NotFound ''./static/missing.txt'')
   \<and> static_handler ''static'' (deno [])
        \<lparr>req = GET_request ''http://localhost/static/missing.txt'', params = Some [(''path'', ''missing.txt'')]\<rparr>
       = Inr (Response (Text ''Not Found'') 404 [])"
proof -
  let ?c = "\<lparr>req = GET_request ''http://localhost/static/missing.txt'', params = Some [(''path'', ''missing.txt'')]\<rparr>"
  have g: "map_get Router_new ''GET'' = Some []"
    by (simp add: Router_new_def)
  have p: "params_path (params ?c) = Inr ''missing.txt''"
    by (simp add: params_path_def)
  have o: "Deno_open (deno []) (''./'' @ default_to ''static'' None @ ''/'' @ ''missing.txt'')
      = Inl (NotFound ''./static/missing.txt'')"
    by (simp add: deno_def open_in_def default_to_def)
  from static_registers_and_catches [OF g, of None None]
  have 1: "fst (static Router_new None None) = Inr ()"
    and 2: "map_get (registered (snd (static Router_new None None)) ''GET'')
              (default_to ''/static'' None @ ''/:path*'')
            = Some (Callable (static_handler (default_to ''static'' None)))"
    and 3: "\<forall>P c path e.
            params_path (params c) = Inr path \<longrightarrow>
            Deno_open P (''./'' @ default_to ''static'' None @ ''/'' @ path) = Inl e \<longrightarrow>
            static_handler (default_to ''static'' None) P c = Inr (Response (Text ''Not Found'') 404 [])"
    by blast+
  from 3 p o have "static_handler (default_to ''static'' None) (deno []) ?c
      = Inr (Response (Text ''Not Found'') 404 [])"
    by blast
  then show ?thesis
    using g 1 2 p o by (simp add: default_to_def)
qed

text \<open>
  Claim C8 as stated fails where it speaks of reading. The handler hands the stream of the
  opened file to the response without reading it. Here \<open>./static/docs\<close> opens and its
  stream fails when it is read (it is a directory); the request for \<open>/static/docs\<close> is
  answered with status 200 and that stream, not with 404.
\<close>

theorem static_read_failure_not_caught:
  "static Router_new None None
     = (Inr (), [(''GET'', [(''/static/:path*'', Callable (static_handler ''static''))]), (''POST'', [])])
   \<and> Deno_open (deno [(''./static/docs'', Inl (Error ''Is a directory''))]) ''./static/docs''
     = Inr (Inl (Error ''Is a directory''))
   \<and> route (deno [(''./static/docs'', Inl (Error ''Is a directory''))])
        [(''GET'', [(''/static/:path*'', Callable (static_handler ''static''))]), (''POST'', [])]
        (GET_request ''http://localhost/static/docs'')
     = ([], Inr (Response (Stream (Inl (Error ''Is a directory''))) 200 []))"
proof -
  have "static Router_new None None
      = (Inr (), [(''GET'', [(''/static/:path*'', Callable (static_handler ''static''))]), (''POST'', [])])"
    by (simp add: static_def add_def Router_new_def default_to_def)
  moreover have "Deno_open (deno [(''./static/docs'', Inl (Error ''Is a directory''))]) ''./static/docs''
      = Inr (Inl (Error ''Is a directory''))"
    by (simp add: deno_def open_in_def)
  moreover have "route (deno [(''./static/docs'', Inl (Error ''Is a directory''))])
      [(''GET'', [(''/static/:path*'', Callable (static_handler ''static''))]), (''POST'', [])]
      (GET_request ''http://localhost/static/docs'')
    = ([], Inr (Response (Stream (Inl (Error ''Is a directory''))) 200 []))"
    by code_simp
  ultimately show ?thesis by simp
qed

subsection \<open>Registering a pattern again (C9)\<close>

text \<open>
  Claim C9. When the pattern is already registered for the method, \<open>#add\<close> puts the new
  handler at the index where the pattern stands, so that looking the pattern up gives the
  new handler; every other entry of the table, the order of the table, the order of the
  methods and the tables of the other methods are as before.
\<close>

theorem add_overwrites_in_place:
  assumes "map_get routes m = Some tbl" and "map_has tbl p" and "p \<noteq> []"
  shows "\<exists>routes' i.
           add routes m (JString p) h = (Inr (), routes') \<and>
           i < length tbl \<and> fst (tbl ! i) = p \<and>
           map_get routes' m = Some (tbl[i := (p, h)]) \<and>
           map_get (tbl[i := (p, h)]) p = Some h \<and>
           map fst routes' = map fst routes \<and>
           (\<forall>m'. m' \<noteq> m \<longrightarrow> map_get routes' m' = map_get routes m')"
proof -
  from map_set_present [OF assms(2), of h]
  obtain i where i: "i < length tbl" "fst (tbl ! i) = p" "map_set tbl p h = tbl[i := (p, h)]"
    by blast
  let ?routes' = "map_set routes m (tbl[i := (p, h)])"
  have a: "add routes m (JString p) h = (Inr (), ?routes')"
    using assms(1,3) i(3) by (simp add: add_string)
  have b: "map_get ?routes' m = Some (tbl[i := (p, h)])"
    by (rule map_get_map_set_same)
  have c: "map_get (tbl[i := (p, h)]) p = Some h"
    using map_get_map_set_same [of tbl p h] i(3) by simp
  have d: "map fst ?routes' = map fst routes"
    using assms(1) by (intro map_set_keys) (simp add: map_has_get)
  have e: "\<forall>m'. m' \<noteq> m \<longrightarrow> map_get ?routes' m' = map_get routes m'"
    by (simp add: map_get_map_set_other)
  show ?thesis using a i(1,2) b c d e by blast
qed

text \<open>
  An instance of C9: \<open>/b\<close>, the second of three GET patterns, is registered again.
\<close>

theorem add_overwrites_in_place_witness:
  "map_get [(''GET'', [(''/a'', handler_null), (''/b'', handler_throws), (''/c'', handler_null)]),
            (''POST'', [(''/b'', handler_throws)])] ''GET''
     = Some [(''/a'', handler_null), (''/b'', handler_throws), (''/c'', handler_null)]
   \<and> map_has [(''/a'', handler_null), (''/b'', handler_throws), (''/c'', handler_null)] ''/b''
   \<and> fst (add [(''GET'', [(''/a'', handler_null), (''/b'', handler_throws), (''/c'', handler_null)]),
                (''POST'', [(''/b'', handler_throws)])] ''GET'' (JString ''/b'') handler_id)
     = Inr ()
   \<and> snd (add [(''GET'', [(''/a'', handler_null), (''/b'', handler_throws), (''/c'', handler_null)]),
                (''POST'', [(''/b'', handler_throws)])] ''GET'' (JString ''/b'') handler_id)
     = [(''GET'', [(''/a'', handler_null), (''/b'', handler_id), (''/c'', handler_null)]),
        (''POST'', [(''/b'', handler_throws)])]"
proof -
  let ?T = "[(''/a'', handler_null), (''/b'', handler_throws), (''/c'', handler_null)]"
  let ?R = "[(''GET'', ?T), (''POST'', [(''/b'', handler_throws)])]"
  have g: "map_get ?R ''GET'' = Some ?T" by simp
  have h: "map_has ?T ''/b''" by simp
  have n: "''/b'' \<noteq> []" by simp
  from add_overwrites_in_place [OF g h n, of handler_id]
  obtain routes' where "add ?R ''GET'' (JString ''/b'') handler_id = (Inr (), routes')"
    by blast
  then have "fst (add ?R ''GET'' (JString ''/b'') handler_id) = Inr ()"
    by simp
  moreover have "snd (add ?R ''GET'' (JString ''/b'') handler_id)
      = [(''GET'', [(''/a'', handler_null), (''/b'', handler_id), (''/c'', handler_null)]),
         (''POST'', [(''/b'', handler_throws)])]"
    by (simp add: add_def)
  ultimately show ?thesis using g h by simp
qed

subsection \<open>Registration for a method that is no key (C10)\<close>

text \<open>
  Claim C10. In the registry of a router, \<open>#add\<close> for a method other than GET and POST,
  with a string pattern that is not empty, completes without an error and returns the
  registry as it was given: the GET and POST tables are unchanged, every later dispatch
  is the dispatch on the old registry, so the handler is never called, and a request with
  that method is answered 405 without any table being read.
\<close>

theorem add_unsupported_method:
  assumes "fixed_methods routes" and "m \<noteq> ''GET''" and "m \<noteq> ''POST''" and "s \<noteq> []"
  shows "add routes m (JString s) h = (Inr (), routes) \<and>
         (\<forall>P r. route P (snd (add routes m (JString s) h)) r = route P routes r) \<and>
         (\<forall>P r. req_method r = m \<longrightarrow> route P routes r = ([], Inr (Response Null 405 [])))"
proof -
  have none: "map_get routes m = None"
    using assms(1-3) by (simp add: fixed_methods_absent)
  then have a: "add routes m (JString s) h = (Inr (), routes)"
    using assms(4) by (simp add: add_string)
  have "route P routes r = ([], Inr (Response Null 405 []))" if "req_method r = m" for P r
    using none that by (simp add: route_for_of registered_def)
  then show ?thesis using a by simp
qed

text \<open>
  An instance of C10: a handler registered for PUT on a router that has a GET route for
  the same pattern; the PUT request is answered 405.
\<close>

theorem add_unsupported_method_witness:
  "fixed_methods [(''GET'', [(''/test'', handler_null)]), (''POST'', [])]
   \<and> add [(''GET'', [(''/test'', handler_null)]), (''POST'', [])] ''PUT'' (JString ''/test'') handler_id
     = (Inr (), [(''GET'', [(''/test'', handler_null)]), (''POST'', [])])
   \<and> route (deno []) [(''GET'', [(''/test'', handler_null)]), (''POST'', [])]
        \<lparr>req_method = ''PUT'', req_url = ''http://localhost/test''\<rparr>
     = ([], Inr (Response Null 405 []))"
proof -
  let ?R = "[(''GET'', [(''/test'', handler_null)]), (''POST'', [])]"
  have f: "fixed_methods ?R" by (simp add: fixed_methods_def)
  have "add ?R ''PUT'' (JString ''/test'') handler_id = (Inr (), ?R) \<and>
      (\<forall>P r. req_method r = ''PUT'' \<longrightarrow> route P ?R r = ([], Inr (Response Null 405 [])))"
    using add_unsupported_method [OF f, of "''PUT''" "''/test''" handler_id] by simp
  then show ?thesis using f by simp
qed

subsection \<open>The tests of the source\<close>

text \<open>
  The tests at the end of \<open>src/router.js\<close> that need no request body, on the model.
\<close>

lemma test_invalid_pathname_throws:
  "fst (get Router_new (JString '''') handler_null) = Inl (Error ''Invalid pathname'')"
  by (simp add: get_def add_def)

lemma test_get_route_with_params:
  "route (deno []) (snd (get Router_new (JString ''/test/:id'') handler_id))
     (GET_request ''http://localhost/test/123'')
   = ([], Inr (Response (Text ''test, 123!'') 200 []))"
  by code_simp

lemma test_unknown_route_404:
  "route (deno []) (snd (get Router_new (JString ''/test'') handler_null))
     (GET_request ''http://localhost/bar'')
   = ([], Inr (Response Null 404 []))"
  by code_simp

lemma test_server_error_500:
  "route (deno []) (snd (get Router_new (JString ''/test'') handler_throws))
     (GET_request ''http://localhost/test'')
   = ([Error ''TEST''], Inr (Response Null 500 []))"
  by code_simp

end
